theory Spec2Isabelle
  imports Complex_Main
begin

section \<open>Exceptions and the numeric model\<close>

text \<open>
  The program is a single Python module (\<^verbatim>\<open>main.py\<close>). Its functions are embedded as
  HOL functions. Every exception the source can raise is a value of \<open>pyerr\<close>, and a
  function that can raise returns \<open>pyerr + 'a\<close> (\<open>Inl\<close> is the raise). Python's
  \<^verbatim>\<open>float\<close> is idealised as \<open>real\<close> and \<^verbatim>\<open>int\<close> is \<open>int\<close>: rounding error, overflow,
  infinities and NaN of IEEE doubles are outside the model.
\<close>

datatype pyerr =
  ValueError | TypeError | AttributeError | ZeroDivisionError | StatisticsError

section \<open>The sizing engine\<close>

subsection \<open>Library functions used by the estimators\<close>





subsection \<open>Effect size\<close>

definition mde_from_relative :: "real \<Rightarrow> real \<Rightarrow> real" where
  "mde_from_relative baseline_cr relative_lift_pct = baseline_cr * (relative_lift_pct / 100)"

subsection \<open>Sample size per variant\<close>




subsection \<open>Duration\<close>





subsection \<open>Variance terms of the formula\<close>



section \<open>Values, objects and the store\<close>

text \<open>
  A Python value is immutable (\<^verbatim>\<open>None\<close>, an \<^verbatim>\<open>int\<close>, a \<^verbatim>\<open>float\<close>, a \<^verbatim>\<open>str\<close>) or a
  reference to a mutable object, a list or a dict with string keys, that lives in the
  store. The store is the list of all objects allocated so far; an address is an index
  into it, and allocation appends. A dict is an association list read with \<open>map_of\<close>.
  Strings are lists of characters with code points below 256.
\<close>

datatype pyval = PNone | PInt int | PFloat real | PStr string | PRef nat

datatype pyobj = OList "pyval list" | ODict "(string \<times> pyval) list"

type_synonym pydict = "(string \<times> pyval) list"

type_synonym store = "pyobj list"

definition deref :: "store \<Rightarrow> nat \<Rightarrow> pyobj option" where
  "deref h a = (if a < length h then Some (h ! a) else None)"

fun is_ref :: "pyval \<Rightarrow> bool" where
  "is_ref (PRef a) = True"
| "is_ref v = False"

fun is_int :: "pyval \<Rightarrow> bool" where
  "is_int (PInt i) = True"
| "is_int v = False"

fun is_str :: "pyval \<Rightarrow> bool" where
  "is_str (PStr s) = True"
| "is_str v = False"

text \<open>\<^verbatim>\<open>d.get(k, default)\<close>; \<^verbatim>\<open>d.get(k)\<close> is \<open>dict_get d k PNone\<close>.\<close>

definition dict_get :: "pydict \<Rightarrow> string \<Rightarrow> pyval \<Rightarrow> pyval" where
  "dict_get d k dflt = (case map_of d k of None \<Rightarrow> dflt | Some v \<Rightarrow> v)"

text \<open>
  Truth value of an object: \<^verbatim>\<open>None\<close>, zero, the empty string and empty containers are
  false. (A reference that is not allocated does not exist in Python; it counts as true.)
\<close>

definition truthy :: "store \<Rightarrow> pyval \<Rightarrow> bool" where
  "truthy h v =
    (case v of
       PNone \<Rightarrow> False
     | PInt i \<Rightarrow> i \<noteq> 0
     | PFloat x \<Rightarrow> x \<noteq> 0
     | PStr s \<Rightarrow> s \<noteq> []
     | PRef a \<Rightarrow>
         (case deref h a of
            Some (OList vs) \<Rightarrow> vs \<noteq> []
          | Some (ODict d) \<Rightarrow> d \<noteq> []
          | None \<Rightarrow> True))"

text \<open>\<^verbatim>\<open>a or b\<close>.\<close>

definition py_or :: "store \<Rightarrow> pyval \<Rightarrow> pyval \<Rightarrow> pyval" where
  "py_or h a b = (if truthy h a then a else b)"

subsection \<open>Strings\<close>

text \<open>The characters \<^verbatim>\<open>str.isspace\<close> accepts, among code points below 256.\<close>

definition is_space :: "char \<Rightarrow> bool" where
  "is_space c =
    (let n = (of_char c :: nat)
     in (9 \<le> n \<and> n \<le> 13) \<or> (28 \<le> n \<and> n \<le> 32) \<or> n = 133 \<or> n = 160)"

text \<open>\<^verbatim>\<open>s.strip()\<close>.\<close>

definition py_strip :: "string \<Rightarrow> string" where
  "py_strip s = rev (dropWhile is_space (rev (dropWhile is_space s)))"

text \<open>\<^verbatim>\<open>s.split(c)\<close> for a one-character separator: one piece more than separators.\<close>

fun py_split :: "char \<Rightarrow> string \<Rightarrow> string list" where
  "py_split c [] = [[]]"
| "py_split c (x # xs) =
     (if x = c then [] # py_split c xs
      else (x # hd (py_split c xs)) # tl (py_split c xs))"

text \<open>\<^verbatim>\<open>sep.join(xs)\<close> on a list of strings.\<close>

fun py_join :: "string \<Rightarrow> string list \<Rightarrow> string" where
  "py_join sep [] = []"
| "py_join sep [x] = x"
| "py_join sep (x # y # ys) = x @ sep @ py_join sep (y # ys)"

text \<open>\<^verbatim>\<open>join\<close> raises \<^verbatim>\<open>TypeError\<close> at the first item that is not a \<^verbatim>\<open>str\<close>.\<close>

fun str_items :: "pyval list \<Rightarrow> pyerr + string list" where
  "str_items [] = Inr []"
| "str_items (PStr s # vs) =
     (case str_items vs of Inl e \<Rightarrow> Inl e | Inr ss \<Rightarrow> Inr (s # ss))"
| "str_items (v # vs) = Inl TypeError"

text \<open>
  \<^verbatim>\<open>", ".join(v)\<close>: \<^verbatim>\<open>v\<close> is iterated, so a list gives its items, a dict its keys and a
  string its characters; anything else is not iterable.
\<close>

definition join_comma :: "store \<Rightarrow> pyval \<Rightarrow> pyerr + string" where
  "join_comma h v =
    (case v of
       PStr s \<Rightarrow> Inr (py_join '', '' (map (\<lambda>c. [c]) s))
     | PRef a \<Rightarrow>
         (case deref h a of
            Some (OList vs) \<Rightarrow>
              (case str_items vs of Inl e \<Rightarrow> Inl e | Inr ss \<Rightarrow> Inr (py_join '', '' ss))
          | Some (ODict d) \<Rightarrow> Inr (py_join '', '' (map fst d))
          | None \<Rightarrow> Inl TypeError)
     | PNone \<Rightarrow> Inl TypeError
     | PInt i \<Rightarrow> Inl TypeError
     | PFloat x \<Rightarrow> Inl TypeError)"

subsection \<open>Integer coercion\<close>

definition is_digit :: "char \<Rightarrow> bool" where
  "is_digit c = (let n = (of_char c :: nat) in 48 \<le> n \<and> n \<le> 57)"

text \<open>A digit, then digits each optionally preceded by one underscore.\<close>

fun digit_run :: "string \<Rightarrow> bool" where
  "digit_run [] = False"
| "digit_run [c] = is_digit c"
| "digit_run (c # d # cs) =
     (is_digit c \<and> (if d = CHR ''_'' then digit_run cs else digit_run (d # cs)))"

definition digits_value :: "string \<Rightarrow> int" where
  "digits_value ds =
    foldl (\<lambda>acc c. 10 * acc + (int (of_char c) - 48)) 0 (filter (\<lambda>c. c \<noteq> CHR ''_'') ds)"

text \<open>
  The white space \<^verbatim>\<open>int\<close> skips at both ends of a string is narrower than that of
  \<^verbatim>\<open>str.strip\<close>: the ASCII characters 9 to 13 and 32, and the two spaces above 127
  (133 and 160), which the conversion maps to a blank first. The separators 28 to 31 are
  not skipped, so \<^verbatim>\<open>int("\x1c5")\<close> raises.
\<close>

definition is_int_space :: "char \<Rightarrow> bool" where
  "is_int_space c =
    (let n = (of_char c :: nat)
     in (9 \<le> n \<and> n \<le> 13) \<or> n = 32 \<or> n = 133 \<or> n = 160)"

definition int_strip :: "string \<Rightarrow> string" where
  "int_strip s = rev (dropWhile is_int_space (rev (dropWhile is_int_space s)))"

text \<open>
  \<^verbatim>\<open>int(s)\<close> for a string, base 10: surrounding whitespace is skipped, one sign is
  allowed, and the rest must be a digit run; otherwise \<^verbatim>\<open>ValueError\<close>. (The
  interpreter's cap on the number of digits is not modelled.)
\<close>

definition int_of_str :: "string \<Rightarrow> pyerr + int" where
  "int_of_str s =
    (let t = int_strip s;
         neg = (t \<noteq> [] \<and> hd t = CHR ''-'');
         ds = (if t \<noteq> [] \<and> (hd t = CHR ''-'' \<or> hd t = CHR ''+'') then tl t else t)
     in if digit_run ds then Inr ((if neg then - 1 else 1) * digits_value ds)
        else Inl ValueError)"

text \<open>
  \<^verbatim>\<open>int(v)\<close>: a float is truncated towards zero; \<^verbatim>\<open>None\<close>, a list and a dict raise
  \<^verbatim>\<open>TypeError\<close>.
\<close>

definition py_int :: "pyval \<Rightarrow> pyerr + int" where
  "py_int v =
    (case v of
       PInt i \<Rightarrow> Inr i
     | PFloat x \<Rightarrow> Inr (if 0 \<le> x then \<lfloor>x\<rfloor> else \<lceil>x\<rceil>)
     | PStr s \<Rightarrow> int_of_str s
     | PNone \<Rightarrow> Inl TypeError
     | PRef a \<Rightarrow> Inl TypeError)"

text \<open>\<^verbatim>\<open>sum\<close> over a generator of results: the first raise ends the iteration.\<close>

fun py_sum :: "(pyerr + int) list \<Rightarrow> pyerr + int" where
  "py_sum [] = Inr 0"
| "py_sum (Inl e # xs) = Inl e"
| "py_sum (Inr i # xs) = (case py_sum xs of Inl e \<Rightarrow> Inl e | Inr s \<Rightarrow> Inr (i + s))"

section \<open>Prioritization scorer\<close>

definition EASIER_COMPONENTS :: "string list" where
  "EASIER_COMPONENTS =
    [''Evidence'', ''Alignment'', ''Speed'', ''Impact'', ''Effort'', ''Reality'']"

definition easier_total :: "pydict \<Rightarrow> pyerr + int" where
  "easier_total easier =
    py_sum (map (\<lambda>k. py_int (dict_get easier k (PInt 0))) EASIER_COMPONENTS)"

text \<open>
  The total of the specification, section 4.4, from its words: the value bound to a
  factor name, 0 for an absent factor, summed over the six names.
\<close>

definition factor_value :: "pydict \<Rightarrow> string \<Rightarrow> int" where
  "factor_value scores k = (case map_of scores k of Some (PInt i) \<Rightarrow> i | _ \<Rightarrow> 0)"

definition rubric_total_spec :: "pydict \<Rightarrow> int" where
  "rubric_total_spec scores =
    factor_value scores ''Evidence'' + factor_value scores ''Alignment''
    + factor_value scores ''Speed'' + factor_value scores ''Impact''
    + factor_value scores ''Effort'' + factor_value scores ''Reality''"

section \<open>Record normalizer and catalog\<close>

definition SECONDARY_KPIS :: "string list" where
  "SECONDARY_KPIS =
    [''RTA Form Completes (Lead Form Submits)'',
     ''RTA Form Starts (Lead Form Starts)'',
     ''CTA Click-through Rate'',
     ''Page-to-Form CTR'',
     ''Bounce Rate'',
     ''Time to First Input'',
     ''Scroll Depth 50%+'',
     ''Phone Clicks'',
     ''Pageviews'',
     ''Avg. Time on Page'']"

text \<open>
  \<^verbatim>\<open>form_data.get("easier", {})\<close> as the receiver of \<^verbatim>\<open>.get\<close>: the dict it refers to,
  the empty dict when the key is absent, \<^verbatim>\<open>AttributeError\<close> when the value is not a dict.
\<close>

definition get_easier :: "store \<Rightarrow> pydict \<Rightarrow> pyerr + pydict" where
  "get_easier h form_data =
    (case map_of form_data ''easier'' of
       None \<Rightarrow> Inr []
     | Some (PRef a) \<Rightarrow>
         (case deref h a of Some (ODict d) \<Rightarrow> Inr d | _ \<Rightarrow> Inl AttributeError)
     | Some _ \<Rightarrow> Inl AttributeError)"

text \<open>\<^verbatim>\<open>", ".join(form_data.get(k, []))\<close>.\<close>

definition get_join :: "store \<Rightarrow> pydict \<Rightarrow> string \<Rightarrow> pyerr + string" where
  "get_join h form_data k =
    (case map_of form_data k of None \<Rightarrow> Inr [] | Some v \<Rightarrow> join_comma h v)"

text \<open>
  \<^verbatim>\<open>to_catalog_row\<close>: the total is computed first, then the dict display is evaluated
  entry by entry. Only the total and the two joins can raise, in this order.
\<close>

definition to_catalog_row :: "store \<Rightarrow> pydict \<Rightarrow> pyerr + pydict" where
  "to_catalog_row h form_data =
    (case get_easier h form_data of Inl e \<Rightarrow> Inl e | Inr easier \<Rightarrow>
    (case easier_total easier of Inl e \<Rightarrow> Inl e | Inr easier_sum \<Rightarrow>
    (case get_join h form_data ''secondary_kpis'' of Inl e \<Rightarrow> Inl e | Inr secondary \<Rightarrow>
    (case get_join h form_data ''test_types'' of Inl e \<Rightarrow> Inl e | Inr types \<Rightarrow>
     Inr
      [(''Test ID'', dict_get form_data ''test_id'' (PStr '''')),
       (''Test Name'', dict_get form_data ''test_name'' (PStr '''')),
       (''Hypothesis'', dict_get form_data ''hypothesis'' (PStr '''')),
       (''Primary KPI'', dict_get form_data ''primary_kpi'' (PStr '''')),
       (''Secondary KPIs'', PStr secondary),
       (''Baseline Traffic (Weekly)'',
          py_or h (dict_get form_data ''weekly_sessions'' PNone) (PStr '''')),
       (''Current Conversion Rate'',
          py_or h (dict_get form_data ''baseline_cr'' PNone) (PStr '''')),
       (''Baseline Sample Size'',
          py_or h (dict_get form_data ''baseline_sample_size'' PNone) (PStr '''')),
       (''Audience / Placement'', dict_get form_data ''audience_placement'' (PStr '''')),
       (''EASIER - Evidence'', dict_get easier ''Evidence'' (PStr '''')),
       (''EASIER - Alignment'', dict_get easier ''Alignment'' (PStr '''')),
       (''EASIER - Speed'', dict_get easier ''Speed'' (PStr '''')),
       (''EASIER - Impact'', dict_get easier ''Impact'' (PStr '''')),
       (''EASIER - Effort'', dict_get easier ''Effort'' (PStr '''')),
       (''EASIER - Reality'', dict_get easier ''Reality'' (PStr '''')),
       (''EASIER Total'', PInt easier_sum),
       (''Notes'', dict_get form_data ''notes'' (PStr '''')),
       (''Test Type'', PStr types),
       (''Funnel Stage'', dict_get form_data ''funnel_stage'' (PStr '''')),
       (''Owner'', dict_get form_data ''owner'' (PStr '''')),
       (''Status'', dict_get form_data ''status'' (PStr '''')),
       (''Start'', dict_get form_data ''start_date'' (PStr '''')),
       (''End'', dict_get form_data ''end_date'' (PStr '''')),
       (''Page URL(s)'', dict_get form_data ''page_urls'' (PStr '''')),
       (''Variant Summary'', dict_get form_data ''variant_summary'' (PStr ''''))]))))"

text \<open>
  The session: the store and \<^verbatim>\<open>st.session_state.catalog\<close>, a list of references to
  row dicts.
\<close>

record session_state =
  objects :: store
  catalog :: "pyval list"

text \<open>
  \<^verbatim>\<open>add_to_catalog(form_data)\<close>, where \<^verbatim>\<open>form_data\<close> is the address of the specification:
  the row is a newly allocated dict, and a reference to it is appended to the catalog.
\<close>

definition add_to_catalog :: "session_state \<Rightarrow> nat \<Rightarrow> pyerr + session_state" where
  "add_to_catalog st form_data =
    (case deref (objects st) form_data of
       Some (ODict fd) \<Rightarrow>
         (case to_catalog_row (objects st) fd of
            Inl e \<Rightarrow> Inl e
          | Inr row \<Rightarrow>
              Inr (st\<lparr>objects := objects st @ [ODict row],
                      catalog := catalog st @ [PRef (length (objects st))]\<rparr>))
     | _ \<Rightarrow> Inl AttributeError)"

text \<open>
  The list comprehension of \<^verbatim>\<open>catalog_page\<close> that splits a joined cell again:
  \<^verbatim>\<open>[x.strip() for x in (v or "").split(",") if x.strip()]\<close>.
\<close>

definition resplit :: "store \<Rightarrow> pyval \<Rightarrow> pyerr + string list" where
  "resplit h v =
    (case py_or h v (PStr '''') of
       PStr s \<Rightarrow>
         Inr (map py_strip (filter (\<lambda>x. py_strip x \<noteq> []) (py_split CHR '','' s)))
     | _ \<Rightarrow> Inl AttributeError)"

text \<open>The \<^verbatim>\<open>"easier"\<close> entry of \<^verbatim>\<open>form_like\<close> in \<^verbatim>\<open>catalog_page\<close>, built from a row.\<close>

definition form_like_easier :: "pydict \<Rightarrow> pydict" where
  "form_like_easier row =
    [(''Evidence'', dict_get row ''EASIER - Evidence'' (PStr '''')),
     (''Alignment'', dict_get row ''EASIER - Alignment'' (PStr '''')),
     (''Speed'', dict_get row ''EASIER - Speed'' (PStr '''')),
     (''Impact'', dict_get row ''EASIER - Impact'' (PStr '''')),
     (''Effort'', dict_get row ''EASIER - Effort'' (PStr '''')),
     (''Reality'', dict_get row ''EASIER - Reality'' (PStr ''''))]"

subsection \<open>Sequences of appends and mutation\<close>

text \<open>N calls of \<^verbatim>\<open>add_to_catalog\<close> in a row; a raise ends the sequence.\<close>

fun add_all :: "session_state \<Rightarrow> nat list \<Rightarrow> pyerr + session_state" where
  "add_all st [] = Inr st"
| "add_all st (fd # fds) =
     (case add_to_catalog st fd of Inl e \<Rightarrow> Inl e | Inr st' \<Rightarrow> add_all st' fds)"

text \<open>
  Any in-place mutation of the object at address \<open>a\<close> (an item assignment, a deletion,
  \<^verbatim>\<open>append\<close>, \<^verbatim>\<open>clear\<close>) replaces the object stored there.
\<close>

definition mutate :: "store \<Rightarrow> nat \<Rightarrow> pyobj \<Rightarrow> store" where
  "mutate h a obj = h[a := obj]"

text \<open>The fields of a specification that \<^verbatim>\<open>to_catalog_row\<close> copies into a row as they are.\<close>

definition COPIED_FIELDS :: "string list" where
  "COPIED_FIELDS =
    [''test_id'', ''test_name'', ''hypothesis'', ''primary_kpi'', ''weekly_sessions'',
     ''baseline_cr'', ''baseline_sample_size'', ''audience_placement'', ''notes'',
     ''funnel_stage'', ''owner'', ''status'', ''start_date'', ''end_date'', ''page_urls'',
     ''variant_summary'']"

definition str_list :: "store \<Rightarrow> pyval \<Rightarrow> bool" where
  "str_list h v =
    (case v of
       PRef a \<Rightarrow> (case deref h a of Some (OList vs) \<Rightarrow> list_all is_str vs | _ \<Rightarrow> False)
     | _ \<Rightarrow> False)"

definition int_dict :: "store \<Rightarrow> pyval \<Rightarrow> bool" where
  "int_dict h v =
    (case v of
       PRef a \<Rightarrow>
         (case deref h a of Some (ODict d) \<Rightarrow> list_all (\<lambda>kv. is_int (snd kv)) d | _ \<Rightarrow> False)
     | _ \<Rightarrow> False)"

definition copied_ok :: "pydict \<Rightarrow> bool" where
  "copied_ok fd =
    list_all (\<lambda>k. case map_of fd k of None \<Rightarrow> True | Some v \<Rightarrow> \<not> is_ref v) COPIED_FIELDS"

text \<open>
  A specification as the form builds it (data model, section 3): a dict whose copied
  fields hold immutable values, whose multi-valued fields are lists of strings and whose
  rubric is a dict of integers. Absent fields are allowed.
\<close>

definition form_spec :: "store \<Rightarrow> nat \<Rightarrow> bool" where
  "form_spec h a =
    (case deref h a of
       Some (ODict fd) \<Rightarrow>
         copied_ok fd
         \<and> (case map_of fd ''secondary_kpis'' of None \<Rightarrow> True | Some v \<Rightarrow> str_list h v)
         \<and> (case map_of fd ''test_types'' of None \<Rightarrow> True | Some v \<Rightarrow> str_list h v)
         \<and> (case map_of fd ''easier'' of None \<Rightarrow> True | Some v \<Rightarrow> int_dict h v)
     | _ \<Rightarrow> False)"

text \<open>
  A string that a comma-join followed by a split on commas and a strip gives back
  unchanged: not empty, no comma, no white space at either end.
\<close>

definition clean :: "string \<Rightarrow> bool" where
  "clean x = (x \<noteq> [] \<and> CHR '','' \<notin> set x \<and> \<not> is_space (hd x) \<and> \<not> is_space (last x))"

section \<open>Properties of the sample-size estimator\<close>

subsection \<open>The feasible branch\<close>







subsection \<open>Sign of the library quantile function\<close>








subsection \<open>Sign of the result\<close>












subsection \<open>Monotonicity\<close>
















section \<open>Properties of the duration estimator\<close>




section \<open>Properties of the prioritization scorer\<close>

lemma py_int_get_int:
  assumes "\<forall>v \<in> snd ` set scores. is_int v"
  shows "py_int (dict_get scores k (PInt 0)) = Inr (factor_value scores k)"
proof (cases "map_of scores k")
  case None
  then show ?thesis by (simp add: dict_get_def factor_value_def py_int_def)
next
  case (Some v)
  then have "(k, v) \<in> set scores" by (rule map_of_SomeD)
  then have "is_int v" using assms by force
  then obtain i where "v = PInt i" by (cases v) simp_all
  then show ?thesis using Some by (simp add: dict_get_def factor_value_def py_int_def)
qed

lemma easier_total_int:
  assumes "\<forall>v \<in> snd ` set scores. is_int v"
  shows "easier_total scores = Inr (rubric_total_spec scores)"
  by (simp add: easier_total_def EASIER_COMPONENTS_def py_int_get_int[OF assms]
      rubric_total_spec_def)

lemma easier_total_cong:
  assumes "\<forall>k \<in> set EASIER_COMPONENTS. map_of s1 k = map_of s2 k"
  shows "easier_total s1 = easier_total s2"
proof -
  have "map (\<lambda>k. py_int (dict_get s1 k (PInt 0))) EASIER_COMPONENTS
      = map (\<lambda>k. py_int (dict_get s2 k (PInt 0))) EASIER_COMPONENTS"
    using assms by (intro map_cong refl) (simp add: dict_get_def)
  then show ?thesis unfolding easier_total_def by (rule arg_cong)
qed

text \<open>
  Claim C6. For a scores mapping whose values are integers, \<open>easier_total\<close> (the
  specification's \<open>rubric_total\<close>) returns the sum, over the six fixed factor names, of
  the value bound to the name, an absent factor counting 0. Keys outside the six are
  ignored: two mappings that agree on the six names have the same total. The empty
  mapping gives 0 and six fives give 30.
\<close>

theorem easier_total_sum:
  assumes "\<forall>v \<in> snd ` set scores. is_int v"
  shows "easier_total scores = Inr (rubric_total_spec scores)
    \<and> ((\<forall>k \<in> set EASIER_COMPONENTS. map_of other k = map_of scores k)
          \<longrightarrow> easier_total other = easier_total scores)
    \<and> easier_total [] = Inr 0
    \<and> easier_total [(''Evidence'', PInt 5), (''Alignment'', PInt 5), (''Speed'', PInt 5),
          (''Impact'', PInt 5), (''Effort'', PInt 5), (''Reality'', PInt 5)] = Inr 30"
proof (intro conjI impI)
  show "easier_total scores = Inr (rubric_total_spec scores)"
    by (rule easier_total_int[OF assms])
  show "easier_total other = easier_total scores"
    if "\<forall>k \<in> set EASIER_COMPONENTS. map_of other k = map_of scores k"
    using that by (rule easier_total_cong)
  show "easier_total [] = Inr 0"
    by (simp add: easier_total_def EASIER_COMPONENTS_def dict_get_def py_int_def)
  show "easier_total [(''Evidence'', PInt 5), (''Alignment'', PInt 5), (''Speed'', PInt 5),
          (''Impact'', PInt 5), (''Effort'', PInt 5), (''Reality'', PInt 5)] = Inr 30"
    by (simp add: easier_total_def EASIER_COMPONENTS_def dict_get_def py_int_def)
qed

theorem easier_total_sum_witness:
  "easier_total [(''Evidence'', PInt 4), (''Speed'', PInt 2), (''Budget'', PInt 9)] = Inr 6
   \<and> easier_total [(''Speed'', PInt 2), (''Evidence'', PInt 4)]
       = easier_total [(''Evidence'', PInt 4), (''Speed'', PInt 2), (''Budget'', PInt 9)]"
proof -
  have h: "\<forall>v \<in> snd ` set [(''Evidence'', PInt 4), (''Speed'', PInt 2), (''Budget'', PInt 9)]. is_int v"
    by simp
  have k: "\<forall>k \<in> set EASIER_COMPONENTS.
      map_of [(''Speed'', PInt 2), (''Evidence'', PInt 4)] k
      = map_of [(''Evidence'', PInt 4), (''Speed'', PInt 2), (''Budget'', PInt 9)] k"
    by (simp add: EASIER_COMPONENTS_def)
  show ?thesis
    using easier_total_sum[OF h, of "[(''Speed'', PInt 2), (''Evidence'', PInt 4)]"] k
    by (simp add: rubric_total_spec_def factor_value_def)
qed

section \<open>Properties of the record normalizer and the catalog\<close>

subsection \<open>Joined cells\<close>

lemma py_split_no_sep: "c \<notin> set x \<Longrightarrow> py_split c x = [x]"
  by (induction x) auto

lemma py_split_append: "c \<notin> set x \<Longrightarrow> py_split c (x @ c # ys) = x # py_split c ys"
  by (induction x) auto

lemma py_join_Cons_prefix: "py_join sep ((p @ y) # ys) = p @ py_join sep (y # ys)"
  by (cases ys) simp_all

lemma split_join:
  assumes "\<forall>x \<in> set (x # xs). CHR '','' \<notin> set x"
  shows "py_split CHR '','' (py_join '', '' (x # xs)) = x # map (\<lambda>y. CHR '' '' # y) xs"
  using assms
proof (induction xs arbitrary: x)
  case Nil
  then show ?case by (simp add: py_split_no_sep)
next
  case (Cons y ys)
  have x: "CHR '','' \<notin> set x" and y: "\<forall>z \<in> set ((CHR '' '' # y) # ys). CHR '','' \<notin> set z"
    using Cons.prems by auto
  have "py_join '', '' (x # y # ys) = x @ CHR '','' # py_join '', '' ((CHR '' '' # y) # ys)"
    using py_join_Cons_prefix[of "'', ''" "'' ''" y ys] by simp
  then show ?case using py_split_append[OF x] Cons.IH[OF y] by simp
qed

lemma py_strip_clean: "clean x \<Longrightarrow> py_strip x = x"
proof -
  assume c: "clean x"
  then have 1: "dropWhile is_space x = x" by (cases x) (simp_all add: clean_def)
  from c have "rev x \<noteq> []" "\<not> is_space (hd (rev x))" by (simp_all add: clean_def hd_rev)
  then have 2: "dropWhile is_space (rev x) = rev x" by (cases "rev x") simp_all
  show ?thesis by (simp add: py_strip_def 1 2)
qed

lemma py_strip_space_clean: "clean x \<Longrightarrow> py_strip (CHR '' '' # x) = x"
proof -
  assume c: "clean x"
  then have 1: "dropWhile is_space (CHR '' '' # x) = x"
    by (cases x) (simp_all add: clean_def is_space_def)
  from c have "rev x \<noteq> []" "\<not> is_space (hd (rev x))" by (simp_all add: clean_def hd_rev)
  then have 2: "dropWhile is_space (rev x) = rev x" by (cases "rev x") simp_all
  show ?thesis unfolding py_strip_def 1 2 by simp
qed

lemma resplit_join:
  assumes "\<forall>x \<in> set xs. clean x"
  shows "map py_strip (filter (\<lambda>x. py_strip x \<noteq> []) (py_split CHR '','' (py_join '', '' xs))) = xs"
proof (cases xs)
  case Nil
  then show ?thesis by (simp add: py_strip_def)
next
  case (Cons x ys)
  have nc: "\<forall>z \<in> set (x # ys). CHR '','' \<notin> set z" using assms Cons by (simp add: clean_def)
  have x: "py_strip x = x" "x \<noteq> []" using assms Cons by (simp_all add: py_strip_clean clean_def)
  have ys: "\<forall>y \<in> set ys. py_strip (CHR '' '' # y) = y \<and> y \<noteq> []"
    using assms Cons by (simp add: py_strip_space_clean clean_def)
  have f: "filter (\<lambda>x. py_strip x \<noteq> []) (map (\<lambda>y. CHR '' '' # y) ys) = map (\<lambda>y. CHR '' '' # y) ys"
    using ys by (induction ys) simp_all
  have m: "map py_strip (map (\<lambda>y. CHR '' '' # y) ys) = ys"
    using ys by (induction ys) simp_all
  show ?thesis unfolding Cons split_join[OF nc] using x f m by simp
qed

lemma kpis_clean: "\<forall>x \<in> set SECONDARY_KPIS. clean x"
  by (simp add: SECONDARY_KPIS_def clean_def is_space_def)

lemma str_items_map_PStr: "str_items (map PStr xs) = Inr xs"
  by (induction xs) simp_all

lemma row_secondary_cell:
  assumes "to_catalog_row h form_data = Inr row"
  shows "\<exists>s. get_join h form_data ''secondary_kpis'' = Inr s
     \<and> map_of row ''Secondary KPIs'' = Some (PStr s)"
  using assms by (auto simp: to_catalog_row_def split: sum.splits)

text \<open>
  Claim C8. When the secondary KPIs of a specification are a list of names from the
  fixed KPI catalog, the row cell is the names joined with a comma and a space in the
  order of the list, and the re-split of \<^verbatim>\<open>catalog_page\<close> (split on commas, strip, drop
  empties) applied to the cell returns the original list.
\<close>

theorem secondary_kpis_roundtrip:
  assumes "set kpis \<subseteq> set SECONDARY_KPIS"
    and "map_of form_data ''secondary_kpis'' = Some (PRef a)"
    and "deref h a = Some (OList (map PStr kpis))"
    and "to_catalog_row h form_data = Inr row"
  shows "map_of row ''Secondary KPIs'' = Some (PStr (py_join '', '' kpis))
    \<and> resplit h (dict_get row ''Secondary KPIs'' (PStr '''')) = Inr kpis"
proof -
  have j: "get_join h form_data ''secondary_kpis'' = Inr (py_join '', '' kpis)"
    using assms(2,3) by (simp add: get_join_def join_comma_def str_items_map_PStr)
  then have cell: "map_of row ''Secondary KPIs'' = Some (PStr (py_join '', '' kpis))"
    using row_secondary_cell[OF assms(4)] by auto
  have c: "\<forall>x \<in> set kpis. clean x" using assms(1) kpis_clean by blast
  have "py_or h (PStr (py_join '', '' kpis)) (PStr []) = PStr (py_join '', '' kpis)"
    by (simp add: py_or_def truthy_def)
  then have "resplit h (PStr (py_join '', '' kpis)) = Inr kpis"
    using resplit_join[OF c] by (simp add: resplit_def)
  then show ?thesis using cell by (simp add: dict_get_def)
qed

theorem secondary_kpis_roundtrip_witness:
  "\<exists>row. to_catalog_row [OList [PStr ''Bounce Rate'', PStr ''Pageviews'']]
             [(''secondary_kpis'', PRef 0)] = Inr row
     \<and> map_of row ''Secondary KPIs'' = Some (PStr ''Bounce Rate, Pageviews'')
     \<and> resplit [OList [PStr ''Bounce Rate'', PStr ''Pageviews'']]
          (dict_get row ''Secondary KPIs'' (PStr ''''))
        = Inr [''Bounce Rate'', ''Pageviews'']"
proof -
  let ?h = "[OList [PStr ''Bounce Rate'', PStr ''Pageviews'']]"
  obtain row where
    r: "to_catalog_row ?h [(''secondary_kpis'', PRef 0)] = Inr row"
    by (simp add: to_catalog_row_def get_easier_def get_join_def easier_total_def
        EASIER_COMPONENTS_def dict_get_def py_int_def join_comma_def deref_def)
  have s: "set [''Bounce Rate'', ''Pageviews''] \<subseteq> set SECONDARY_KPIS"
    by (simp add: SECONDARY_KPIS_def)
  have d: "deref ?h 0 = Some (OList (map PStr [''Bounce Rate'', ''Pageviews'']))"
    by (simp add: deref_def)
  show ?thesis
    using secondary_kpis_roundtrip[OF s _ d r] r by simp
qed

subsection \<open>Appending to the catalog\<close>

lemma deref_append: "a < length h \<Longrightarrow> deref (h @ h') a = deref h a"
  by (simp add: deref_def nth_append)

lemma deref_SomeD: "deref h a = Some obj \<Longrightarrow> a < length h"
  by (simp add: deref_def split: if_splits)

lemma deref_fresh: "deref (h @ map ODict rows) (length h + i) = (if i < length rows then Some (ODict (rows ! i)) else None)"
  by (simp add: deref_def nth_append)

lemma str_items_strs: "list_all is_str vs \<Longrightarrow> \<exists>ss. str_items vs = Inr ss"
proof (induction vs)
  case Nil
  then show ?case by simp
next
  case (Cons v vs)
  then obtain s where "v = PStr s" by (cases v) simp_all
  then show ?case using Cons by auto
qed

lemma str_list_join: "str_list h v \<Longrightarrow> \<exists>s. join_comma h v = Inr s"
  by (auto simp: str_list_def join_comma_def dest!: str_items_strs
      split: pyval.splits option.splits pyobj.splits)

lemma str_list_append: "str_list h v \<Longrightarrow> str_list (h @ h') v"
  by (auto simp: str_list_def deref_def nth_append split: pyval.splits pyobj.splits if_splits)

lemma int_dict_append: "int_dict h v \<Longrightarrow> int_dict (h @ h') v"
  by (auto simp: int_dict_def deref_def nth_append split: pyval.splits pyobj.splits if_splits)

lemma str_list_join_append: "str_list h v \<Longrightarrow> join_comma (h @ h') v = join_comma h v"
  by (auto simp: str_list_def join_comma_def deref_def nth_append
      split: pyval.splits pyobj.splits if_splits)

lemma truthy_nonref: "\<not> is_ref v \<Longrightarrow> truthy h' v = truthy h v"
  by (cases v) (simp_all add: truthy_def)

lemma py_or_nonref: "\<not> is_ref v \<Longrightarrow> py_or h' v w = py_or h v w"
  by (simp add: py_or_def truthy_nonref[of v h' h])

lemma py_or_not_ref: "\<not> is_ref v \<Longrightarrow> \<not> is_ref w \<Longrightarrow> \<not> is_ref (py_or h v w)"
  by (simp add: py_or_def)

lemma copied_not_ref:
  assumes "copied_ok fd" "k \<in> set COPIED_FIELDS" "\<not> is_ref d"
  shows "\<not> is_ref (dict_get fd k d)"
  using assms by (auto simp: copied_ok_def list_all_iff dict_get_def split: option.splits)

lemma int_valued_not_ref:
  assumes "\<forall>v \<in> snd ` set easier. is_int v" "\<not> is_ref d"
  shows "\<not> is_ref (dict_get easier k d)"
proof (cases "map_of easier k")
  case None
  then show ?thesis using assms by (simp add: dict_get_def)
next
  case (Some v)
  then have "(k, v) \<in> set easier" by (rule map_of_SomeD)
  then have "is_int v" using assms by force
  then show ?thesis using Some by (cases v) (simp_all add: dict_get_def)
qed

lemma form_spec_easier:
  assumes "deref h a = Some (ODict fd)" "form_spec h a"
  shows "\<exists>easier. get_easier h fd = Inr easier \<and> (\<forall>v \<in> snd ` set easier. is_int v)
     \<and> (\<forall>h'. get_easier (h @ h') fd = Inr easier)"
proof (cases "map_of fd ''easier''")
  case None
  then show ?thesis by (simp add: get_easier_def)
next
  case (Some v)
  then have "int_dict h v" using assms by (simp add: form_spec_def)
  then obtain b d where v: "v = PRef b" and d: "deref h b = Some (ODict d)"
    and i: "list_all (\<lambda>kv. is_int (snd kv)) d"
    by (auto simp: int_dict_def split: pyval.splits option.splits pyobj.splits)
  have "\<forall>h'. deref (h @ h') b = Some (ODict d)"
    using d deref_append[OF deref_SomeD[OF d]] by simp
  then show ?thesis using Some v d i by (auto simp: get_easier_def list_all_iff)
qed

lemma form_spec_join:
  assumes "deref h a = Some (ODict fd)" "form_spec h a"
    and "k = ''secondary_kpis'' \<or> k = ''test_types''"
  shows "\<exists>s. get_join h fd k = Inr s \<and> (\<forall>h'. get_join (h @ h') fd k = Inr s)"
proof (cases "map_of fd k")
  case None
  then show ?thesis by (simp add: get_join_def)
next
  case (Some v)
  then have sl: "str_list h v" using assms by (auto simp: form_spec_def)
  then obtain s where "join_comma h v = Inr s" using str_list_join by blast
  then show ?thesis using Some str_list_join_append[OF sl] by (simp add: get_join_def)
qed

lemma form_spec_copied:
  assumes "deref h a = Some (ODict fd)" "form_spec h a"
  shows "copied_ok fd"
  using assms by (simp add: form_spec_def)

lemma form_row:
  assumes d: "deref h a = Some (ODict fd)" and f: "form_spec h a"
  shows "\<exists>row. to_catalog_row h fd = Inr row \<and> list_all (\<lambda>kv. \<not> is_ref (snd kv)) row
     \<and> (\<forall>h'. to_catalog_row (h @ h') fd = Inr row)"
proof -
  obtain easier where e: "get_easier h fd = Inr easier" "\<forall>v \<in> snd ` set easier. is_int v"
    "\<forall>h'. get_easier (h @ h') fd = Inr easier"
    using form_spec_easier[OF d f] by blast
  have t: "easier_total easier = Inr (rubric_total_spec easier)"
    by (rule easier_total_int[OF e(2)])
  obtain sec where s: "get_join h fd ''secondary_kpis'' = Inr sec"
    "\<forall>h'. get_join (h @ h') fd ''secondary_kpis'' = Inr sec"
    using form_spec_join[OF d f, of "''secondary_kpis''"] by blast
  obtain types where ty: "get_join h fd ''test_types'' = Inr types"
    "\<forall>h'. get_join (h @ h') fd ''test_types'' = Inr types"
    using form_spec_join[OF d f, of "''test_types''"] by blast
  have c: "copied_ok fd" by (rule form_spec_copied[OF d f])
  have nr: "\<not> is_ref (dict_get fd k dflt)" if "k \<in> set COPIED_FIELDS" "\<not> is_ref dflt" for k dflt
    using copied_not_ref[OF c that] .
  have ne: "\<not> is_ref (dict_get easier k (PStr []))" for k
    using int_valued_not_ref[OF e(2)] by simp
  have same: "to_catalog_row (h @ h') fd = to_catalog_row h fd" for h'
    using e s ty t nr
    by (simp add: to_catalog_row_def COPIED_FIELDS_def py_or_nonref[where h' = "h @ h'" and h = h])
  have "list_all (\<lambda>kv. \<not> is_ref (snd kv)) (projr (to_catalog_row h fd))"
    using e s ty t nr ne
    by (simp add: to_catalog_row_def COPIED_FIELDS_def py_or_not_ref)
  moreover have "to_catalog_row h fd = Inr (projr (to_catalog_row h fd))"
    using e s ty t by (simp add: to_catalog_row_def)
  ultimately show ?thesis using same by metis
qed

lemma form_spec_append: "form_spec h a \<Longrightarrow> form_spec (h @ h') a"
proof -
  assume f: "form_spec h a"
  then obtain fd where d: "deref h a = Some (ODict fd)"
    by (auto simp: form_spec_def split: option.splits pyobj.splits)
  then have d': "deref (h @ h') a = Some (ODict fd)"
    using deref_append[OF deref_SomeD[OF d]] by simp
  show ?thesis using f d d'
    by (auto simp: form_spec_def str_list_append int_dict_append split: option.splits)
qed

lemma add_to_catalog_form:
  assumes d: "deref (objects st) a = Some (ODict fd)"
    and r: "to_catalog_row (objects st) fd = Inr row"
  shows "add_to_catalog st a
    = Inr (st\<lparr>objects := objects st @ [ODict row],
              catalog := catalog st @ [PRef (length (objects st))]\<rparr>)"
  using d r by (simp add: add_to_catalog_def)

lemma add_all_form:
  assumes "list_all (form_spec (objects st)) fds"
  shows "\<exists>rows. length rows = length fds
     \<and> add_all st fds
        = Inr (st\<lparr>objects := objects st @ map ODict rows,
                  catalog := catalog st
                    @ map PRef [length (objects st)..<length (objects st) + length fds]\<rparr>)
     \<and> (\<forall>i<length fds. \<exists>fd. deref (objects st) (fds ! i) = Some (ODict fd)
            \<and> to_catalog_row (objects st) fd = Inr (rows ! i)
            \<and> list_all (\<lambda>kv. \<not> is_ref (snd kv)) (rows ! i))"
  using assms
proof (induction fds arbitrary: st)
  case Nil
  then show ?case by simp
next
  case (Cons a fds)
  let ?h = "objects st"
  have fa: "form_spec ?h a" and ffds: "list_all (form_spec ?h) fds"
    using Cons.prems by simp_all
  obtain fd where d: "deref ?h a = Some (ODict fd)"
    using fa by (auto simp: form_spec_def split: option.splits pyobj.splits)
  obtain row where r: "to_catalog_row ?h fd = Inr row"
    and nr: "list_all (\<lambda>kv. \<not> is_ref (snd kv)) row"
    using form_row[OF d fa] by blast
  define st1 where "st1 = st\<lparr>objects := ?h @ [ODict row],
      catalog := catalog st @ [PRef (length ?h)]\<rparr>"
  have step: "add_to_catalog st a = Inr st1"
    unfolding st1_def by (rule add_to_catalog_form[OF d r])
  have o1: "objects st1 = ?h @ [ODict row]" and c1: "catalog st1 = catalog st @ [PRef (length ?h)]"
    by (simp_all add: st1_def)
  have "list_all (form_spec (objects st1)) fds"
    using ffds unfolding o1 by (simp add: list_all_iff form_spec_append)
  from Cons.IH[OF this] obtain rows where
    len: "length rows = length fds"
    and run: "add_all st1 fds
        = Inr (st1\<lparr>objects := objects st1 @ map ODict rows,
                  catalog := catalog st1
                    @ map PRef [length (objects st1)..<length (objects st1) + length fds]\<rparr>)"
    and each: "\<forall>i<length fds. \<exists>fd. deref (objects st1) (fds ! i) = Some (ODict fd)
            \<and> to_catalog_row (objects st1) fd = Inr (rows ! i)
            \<and> list_all (\<lambda>kv. \<not> is_ref (snd kv)) (rows ! i)"
    by blast
  have upt: "[length ?h..<length ?h + length (a # fds)]
      = length ?h # [Suc (length ?h)..<Suc (length ?h) + length fds]"
    by (subst upt_rec) simp
  have res: "add_all st (a # fds)
      = Inr (st\<lparr>objects := ?h @ map ODict (row # rows),
                catalog := catalog st @ map PRef [length ?h..<length ?h + length (a # fds)]\<rparr>)"
    unfolding upt using step run by (simp add: st1_def)
  have all: "\<exists>fd'. deref ?h ((a # fds) ! i) = Some (ODict fd')
            \<and> to_catalog_row ?h fd' = Inr ((row # rows) ! i)
            \<and> list_all (\<lambda>kv. \<not> is_ref (snd kv)) ((row # rows) ! i)"
    if i: "i < length (a # fds)" for i
  proof (cases i)
    case 0
    then show ?thesis using d r nr by simp
  next
    case (Suc j)
    then have j: "j < length fds" using i by simp
    then have fj: "form_spec ?h (fds ! j)" using ffds by (simp add: list_all_length)
    then obtain fd0 where d0: "deref ?h (fds ! j) = Some (ODict fd0)"
      by (auto simp: form_spec_def split: option.splits pyobj.splits)
    obtain row0 where r0: "to_catalog_row ?h fd0 = Inr row0"
      and same: "\<forall>h'. to_catalog_row (?h @ h') fd0 = Inr row0"
      using form_row[OF d0 fj] by blast
    from each j obtain fd1 where d1: "deref (objects st1) (fds ! j) = Some (ODict fd1)"
      and r1: "to_catalog_row (objects st1) fd1 = Inr (rows ! j)"
      and n1: "list_all (\<lambda>kv. \<not> is_ref (snd kv)) (rows ! j)"
      by blast
    have "deref (objects st1) (fds ! j) = deref ?h (fds ! j)"
      unfolding o1 by (rule deref_append[OF deref_SomeD[OF d0]])
    then have "fd1 = fd0" using d0 d1 by simp
    then have "rows ! j = row0" using r1 same unfolding o1 by simp
    then show ?thesis using Suc d0 r0 n1 by simp
  qed
  have "length (row # rows) = length (a # fds)" using len by simp
  moreover note res
  moreover have "\<forall>i<length (a # fds). \<exists>fd'. deref ?h ((a # fds) ! i) = Some (ODict fd')
            \<and> to_catalog_row ?h fd' = Inr ((row # rows) ! i)
            \<and> list_all (\<lambda>kv. \<not> is_ref (snd kv)) ((row # rows) ! i)"
    using all by blast
  ultimately show ?case by (intro exI[of _ "row # rows"] conjI)
qed

text \<open>
  Claim C7. Appending N specifications of the form's shape, one
  \<open>add_to_catalog\<close> call after the other, always succeeds and extends the catalog by
  exactly N references, in the order of the calls (so N rows from the empty catalog).
  The i-th new row is a newly allocated dict holding the normalization of the i-th
  specification, and every cell of it is an immutable value: the row shares no mutable
  object with the specification. The calls leave every object that existed before
  unchanged, and a later mutation of any such object (the specification itself, its
  KPI list, its rubric) leaves the appended rows as they were.
\<close>

theorem catalog_append_detached:
  assumes "list_all (form_spec (objects st)) fds"
  shows "\<exists>st'. add_all st fds = Inr st'
    \<and> catalog st' = catalog st @ map PRef [length (objects st)..<length (objects st) + length fds]
    \<and> length (catalog st') = length (catalog st) + length fds
    \<and> (\<forall>i<length fds. \<exists>fd row. deref (objects st) (fds ! i) = Some (ODict fd)
          \<and> to_catalog_row (objects st) fd = Inr row
          \<and> deref (objects st') (length (objects st) + i) = Some (ODict row)
          \<and> list_all (\<lambda>kv. \<not> is_ref (snd kv)) row)
    \<and> (\<forall>a<length (objects st). deref (objects st') a = deref (objects st) a)
    \<and> (\<forall>a obj i. a < length (objects st) \<and> i < length fds \<longrightarrow>
          deref (mutate (objects st') a obj) (length (objects st) + i)
            = deref (objects st') (length (objects st) + i))"
proof -
  let ?h = "objects st"
  from add_all_form[OF assms] obtain rows where
    len: "length rows = length fds"
    and run: "add_all st fds
        = Inr (st\<lparr>objects := ?h @ map ODict rows,
                  catalog := catalog st @ map PRef [length ?h..<length ?h + length fds]\<rparr>)"
    and each: "\<forall>i<length fds. \<exists>fd. deref ?h (fds ! i) = Some (ODict fd)
            \<and> to_catalog_row ?h fd = Inr (rows ! i)
            \<and> list_all (\<lambda>kv. \<not> is_ref (snd kv)) (rows ! i)"
    by blast
  define st' where "st' = st\<lparr>objects := ?h @ map ODict rows,
      catalog := catalog st @ map PRef [length ?h..<length ?h + length fds]\<rparr>"
  have o: "objects st' = ?h @ map ODict rows"
    and c: "catalog st' = catalog st @ map PRef [length ?h..<length ?h + length fds]"
    by (simp_all add: st'_def)
  have 1: "add_all st fds = Inr st'" using run by (simp add: st'_def)
  have 3: "length (catalog st') = length (catalog st) + length fds" by (simp add: c)
  have 4: "\<forall>i<length fds. \<exists>fd row. deref ?h (fds ! i) = Some (ODict fd)
          \<and> to_catalog_row ?h fd = Inr row
          \<and> deref (objects st') (length ?h + i) = Some (ODict row)
          \<and> list_all (\<lambda>kv. \<not> is_ref (snd kv)) row"
  proof (intro allI impI)
    fix i assume i: "i < length fds"
    with each obtain fd where "deref ?h (fds ! i) = Some (ODict fd)"
      "to_catalog_row ?h fd = Inr (rows ! i)" "list_all (\<lambda>kv. \<not> is_ref (snd kv)) (rows ! i)"
      by blast
    moreover have "deref (objects st') (length ?h + i) = Some (ODict (rows ! i))"
      unfolding o deref_fresh using i len by simp
    ultimately show "\<exists>fd row. deref ?h (fds ! i) = Some (ODict fd)
          \<and> to_catalog_row ?h fd = Inr row
          \<and> deref (objects st') (length ?h + i) = Some (ODict row)
          \<and> list_all (\<lambda>kv. \<not> is_ref (snd kv)) row"
      by blast
  qed
  have 5: "\<forall>a<length ?h. deref (objects st') a = deref ?h a"
    by (simp add: o deref_append)
  have 6: "\<forall>a obj i. a < length ?h \<and> i < length fds \<longrightarrow>
          deref (mutate (objects st') a obj) (length ?h + i) = deref (objects st') (length ?h + i)"
    by (simp add: mutate_def deref_def)
  show ?thesis by (intro exI[of _ st'] conjI 1 c 3 4 5 6)
qed

theorem catalog_append_detached_witness:
  "\<exists>st'. add_all
       \<lparr>objects =
          [ODict [(''test_id'', PStr ''T-1''), (''secondary_kpis'', PRef 1),
                  (''easier'', PRef 2), (''weekly_sessions'', PInt 5000)],
           OList [PStr ''Bounce Rate'', PStr ''Pageviews''],
           ODict [(''Evidence'', PInt 3), (''Impact'', PInt 5)],
           ODict [(''test_id'', PStr ''T-2'')]],
        catalog = []\<rparr> [0, 3] = Inr st'
     \<and> catalog st' = [PRef 4, PRef 5]
     \<and> (\<exists>row. deref (objects st') 4 = Some (ODict row)
           \<and> map_of row ''Test ID'' = Some (PStr ''T-1'')
           \<and> map_of row ''Secondary KPIs'' = Some (PStr ''Bounce Rate, Pageviews'')
           \<and> map_of row ''EASIER Total'' = Some (PInt 8))
     \<and> deref (mutate (objects st') 0 (ODict [])) 4 = deref (objects st') 4"
proof -
  let ?h = "[ODict [(''test_id'', PStr ''T-1''), (''secondary_kpis'', PRef 1),
                  (''easier'', PRef 2), (''weekly_sessions'', PInt 5000)],
           OList [PStr ''Bounce Rate'', PStr ''Pageviews''],
           ODict [(''Evidence'', PInt 3), (''Impact'', PInt 5)],
           ODict [(''test_id'', PStr ''T-2'')]]"
  let ?st = "\<lparr>objects = ?h, catalog = []\<rparr>"
  have h: "list_all (form_spec (objects ?st)) [0, 3]"
    by (simp add: form_spec_def copied_ok_def COPIED_FIELDS_def deref_def str_list_def
        int_dict_def)
  from catalog_append_detached[OF h] obtain st' where
    run: "add_all ?st [0, 3] = Inr st'"
    and cat: "catalog st' = catalog ?st @ map PRef [length (objects ?st)..<length (objects ?st) + length [0::nat, 3]]"
    and rows: "\<forall>i<length [0::nat, 3]. \<exists>fd row. deref (objects ?st) ([0, 3] ! i) = Some (ODict fd)
          \<and> to_catalog_row (objects ?st) fd = Inr row
          \<and> deref (objects st') (length (objects ?st) + i) = Some (ODict row)
          \<and> list_all (\<lambda>kv. \<not> is_ref (snd kv)) row"
    and mut: "\<forall>a obj i. a < length (objects ?st) \<and> i < length [0::nat, 3] \<longrightarrow>
          deref (mutate (objects st') a obj) (length (objects ?st) + i)
            = deref (objects st') (length (objects ?st) + i)"
    by blast
  have c: "catalog st' = [PRef 4, PRef 5]" using cat by (simp add: upt_rec)
  have "0 < length [0::nat, 3]" by simp
  from rows[rule_format, OF this] obtain fd row where
    fd: "deref (objects ?st) ([0, 3] ! 0) = Some (ODict fd)"
    and r0: "to_catalog_row (objects ?st) fd = Inr row"
    and d0: "deref (objects st') (length (objects ?st) + 0) = Some (ODict row)"
    by blast
  have r: "to_catalog_row ?h fd = Inr row" using r0 by simp
  have l: "length (objects ?st) + 0 = 4" by simp
  have d: "deref (objects st') 4 = Some (ODict row)" using d0 unfolding l .
  have fd': "fd = [(''test_id'', PStr ''T-1''), (''secondary_kpis'', PRef 1),
                  (''easier'', PRef 2), (''weekly_sessions'', PInt 5000)]"
    using fd by (simp add: deref_def)
  have cells: "map_of row ''Test ID'' = Some (PStr ''T-1'')
      \<and> map_of row ''Secondary KPIs'' = Some (PStr ''Bounce Rate, Pageviews'')
      \<and> map_of row ''EASIER Total'' = Some (PInt 8)"
    using r unfolding fd'
    by (auto simp: to_catalog_row_def get_easier_def get_join_def easier_total_def
        EASIER_COMPONENTS_def dict_get_def py_int_def join_comma_def deref_def)
  have "0 < length (objects ?st) \<and> 0 < length [0::nat, 3]" by simp
  from mut[rule_format, OF this, of "ODict []"]
  have m: "deref (mutate (objects st') 0 (ODict [])) 4 = deref (objects st') 4" unfolding l .
  show ?thesis using run c d cells m by blast
qed

subsection \<open>Blank cells\<close>

lemma row_baseline_cells:
  assumes "to_catalog_row h form_data = Inr row"
  shows "map_of row ''Baseline Traffic (Weekly)''
      = Some (py_or h (dict_get form_data ''weekly_sessions'' PNone) (PStr ''''))"
    and "map_of row ''Current Conversion Rate''
      = Some (py_or h (dict_get form_data ''baseline_cr'' PNone) (PStr ''''))"
    and "map_of row ''Baseline Sample Size''
      = Some (py_or h (dict_get form_data ''baseline_sample_size'' PNone) (PStr ''''))"
  using assms by (auto simp: to_catalog_row_def split: sum.splits)

text \<open>
  Claim C9. When the weekly traffic is 0, the baseline conversion rate is 0.0 or the
  baseline sample size is 0, \<open>to_catalog_row\<close> writes the empty string into the
  corresponding column, which is also what it writes when the field is absent: the
  row does not tell a zero from a missing value.
\<close>

theorem zero_baselines_blank:
  assumes "to_catalog_row h form_data = Inr row"
  shows "(map_of form_data ''weekly_sessions'' = Some (PInt 0)
            \<or> map_of form_data ''weekly_sessions'' = None
          \<longrightarrow> map_of row ''Baseline Traffic (Weekly)'' = Some (PStr ''''))
    \<and> (map_of form_data ''baseline_cr'' = Some (PFloat 0)
            \<or> map_of form_data ''baseline_cr'' = None
          \<longrightarrow> map_of row ''Current Conversion Rate'' = Some (PStr ''''))
    \<and> (map_of form_data ''baseline_sample_size'' = Some (PInt 0)
            \<or> map_of form_data ''baseline_sample_size'' = None
          \<longrightarrow> map_of row ''Baseline Sample Size'' = Some (PStr ''''))"
  unfolding row_baseline_cells[OF assms]
  by (auto simp: py_or_def truthy_def dict_get_def)

theorem zero_baselines_blank_witness:
  "\<exists>row. to_catalog_row [] [(''weekly_sessions'', PInt 0), (''baseline_cr'', PFloat 0)] = Inr row
     \<and> map_of row ''Baseline Traffic (Weekly)'' = Some (PStr '''')
     \<and> map_of row ''Current Conversion Rate'' = Some (PStr '''')
     \<and> map_of row ''Baseline Sample Size'' = Some (PStr '''')"
proof -
  obtain row where
    r: "to_catalog_row [] [(''weekly_sessions'', PInt 0), (''baseline_cr'', PFloat 0)] = Inr row"
    by (simp add: to_catalog_row_def get_easier_def get_join_def easier_total_def
        EASIER_COMPONENTS_def dict_get_def py_int_def)
  show ?thesis using zero_baselines_blank[OF r] r by simp
qed

text \<open>
  Claim C10. \<open>easier_total\<close> coerces every present factor value with \<^verbatim>\<open>int\<close>, so a
  factor bound to the empty string makes the call raise \<^verbatim>\<open>ValueError\<close>. Such a mapping
  arises on re-export: a specification without rubric normalizes to a row whose rubric
  cells are empty strings, and \<^verbatim>\<open>catalog_page\<close> passes these cells back as factor
  values. Only absent factors are filled with 0; a blank value under a key outside the
  six is never coerced.
\<close>

theorem blank_rubric_raises:
  "easier_total [(''Evidence'', PStr '''')] = Inl ValueError
   \<and> (\<exists>row. to_catalog_row [] [] = Inr row
         \<and> map_of row ''EASIER - Evidence'' = Some (PStr '''')
         \<and> easier_total (form_like_easier row) = Inl ValueError)
   \<and> easier_total [(''Budget'', PStr '''')] = Inr 0"
  by (simp add: to_catalog_row_def get_easier_def get_join_def form_like_easier_def
      easier_total_def EASIER_COMPONENTS_def dict_get_def py_int_def int_of_str_def int_strip_def)

end
